theory Spec2Isabelle
  imports Main "HOL-Library.Multiset"
begin

section \<open>The selection callback of the comparison plot\<close>

text \<open>
  The repository's only source file, \<^verbatim>\<open>src/widget_callback.js\<close>, is the body of a
  callback that a checkbox group runs when its selection changes.  It reads the active
  checkbox positions \<^verbatim>\<open>cb_obj.active\<close>, the list of group labels \<^verbatim>\<open>group_list\<close> and the
  columns \<^verbatim>\<open>index\<close> and \<^verbatim>\<open>widget_group\<close> of the data dictionary of \<^verbatim>\<open>source\<close>;
  it writes \<^verbatim>\<open>source.selected.indices\<close> and calls \<^verbatim>\<open>source.change.emit()\<close>.
\<close>

subsection \<open>Values, errors and the state the script touches\<close>

text \<open>
  The values stored in the arrays the script reads.  \<open>JUndefined\<close> is what JavaScript
  returns for a read beyond the end of an array.  Group labels are strings; the cells of
  a column are arbitrary values.  \<^verbatim>\<open>Array.prototype.includes\<close> compares with
  SameValueZero, which on integers, strings and \<^verbatim>\<open>undefined\<close> is equality.
\<close>

datatype jsval = JUndefined | JNum int | JStr string

text \<open>
  The script has no \<^verbatim>\<open>throw\<close>; the only failure it can run into on a data source is
  the TypeError of reading a property of \<^verbatim>\<open>undefined\<close>, when a column is absent from
  \<^verbatim>\<open>source.data\<close>.
\<close>

datatype error = TypeError

text \<open>
  \<^verbatim>\<open>source\<close>: its dictionary of columns \<^verbatim>\<open>source.data\<close>, the selection
  \<^verbatim>\<open>source.selected.indices\<close>, and the record of the calls of
  \<^verbatim>\<open>source.change.emit()\<close>: each call appends the selection its listeners find in
  the source at that moment.
\<close>

record source =
  data :: "string \<rightharpoonup> jsval list"
  selected_indices :: "nat list"
  change_emits :: "nat list list"

text \<open>
  Everything the script names: \<^verbatim>\<open>cb_obj.active\<close>, \<^verbatim>\<open>group_list\<close>, \<^verbatim>\<open>source\<close>, and
  \<^verbatim>\<open>to_select_inds\<close>.  The script declares \<^verbatim>\<open>chosen_inds\<close>, \<^verbatim>\<open>chosen_widget_groups\<close>
  and \<^verbatim>\<open>i\<close> with \<^verbatim>\<open>var\<close> but assigns \<^verbatim>\<open>to_select_inds\<close> without declaring it; the
  file has no strict-mode directive, so the assignment creates or overwrites a variable
  that outlives the run (\<open>None\<close> while it has never been assigned).
\<close>

record env =
  cb_obj_active :: "int list"
  group_list :: "string list"
  source :: source
  to_select_inds :: "nat list option"

text \<open>\<^verbatim>\<open>xs.includes(v)\<close>.\<close>

definition js_includes :: "'a list \<Rightarrow> 'a \<Rightarrow> bool" where
  "js_includes xs v = (v \<in> set xs)"

text \<open>\<^verbatim>\<open>xs[i]\<close> on an array: \<^verbatim>\<open>undefined\<close> beyond its end.\<close>

definition js_get :: "jsval list \<Rightarrow> nat \<Rightarrow> jsval" where
  "js_get xs i = (if i < length xs then xs ! i else JUndefined)"

subsection \<open>The two loops and the callback\<close>

text \<open>
  \<^verbatim>\<open>for (var i = 0; i < group_list.length; ++ i){
    if (chosen_inds.includes(i)){ chosen_widget_groups.push(group_list[i]) }; };\<close>
  The read \<^verbatim>\<open>group_list[i]\<close> is in range by the loop condition.
\<close>

function chosen_loop :: "int list \<Rightarrow> string list \<Rightarrow> nat \<Rightarrow> jsval list \<Rightarrow> jsval list" where
  "chosen_loop chosen_inds gl i chosen_widget_groups =
     (if i < length gl then
        chosen_loop chosen_inds gl (Suc i)
          (if js_includes chosen_inds (int i)
           then chosen_widget_groups @ [JStr (gl ! i)]
           else chosen_widget_groups)
      else chosen_widget_groups)"
  by pat_completeness auto
termination
  by (relation "measure (\<lambda>(chosen_inds, gl, i, acc). length gl - i)") auto

text \<open>
  \<^verbatim>\<open>for (var i = 0; i < source.data['index'].length; ++ i){
    if (chosen_widget_groups.includes(source.data['widget_group'][i])){
      to_select_inds.push(i) }; };\<close>
  The loop condition reads \<^verbatim>\<open>source.data['index'].length\<close> and the body reads
  \<^verbatim>\<open>source.data['widget_group'][i]\<close>; either raises a TypeError when the column is
  not in the dictionary.  The second read is not guarded by the length of
  \<^verbatim>\<open>widget_group\<close>.
\<close>

function select_loop :: "(string \<rightharpoonup> jsval list) \<Rightarrow> jsval list \<Rightarrow> nat \<Rightarrow> nat list \<Rightarrow> error + nat list" where
  "select_loop d chosen_widget_groups i inds =
     (case d ''index'' of
        None \<Rightarrow> Inl TypeError
      | Some idx \<Rightarrow>
          if i < length idx then
            (case d ''widget_group'' of
               None \<Rightarrow> Inl TypeError
             | Some wg \<Rightarrow>
                 select_loop d chosen_widget_groups (Suc i)
                   (if js_includes chosen_widget_groups (js_get wg i)
                    then inds @ [i]
                    else inds))
          else Inr inds)"
  by pat_completeness auto
termination
  by (relation "measure (\<lambda>(d, chosen, i, inds).
        case d ''index'' of None \<Rightarrow> 0 | Some idx \<Rightarrow> length idx - i)") auto

text \<open>\<^verbatim>\<open>source.change.emit()\<close>.\<close>

definition emit_change :: "source \<Rightarrow> source" where
  "emit_change s = s\<lparr>change_emits := change_emits s @ [selected_indices s]\<rparr>"

text \<open>
  The whole script.  \<^verbatim>\<open>to_select_inds = []\<close> is the empty accumulator the second loop
  starts from; after the loop the script runs
  \<^verbatim>\<open>source.selected.indices = to_select_inds; source.change.emit();\<close>.
  An error leaves the script before these two statements.
\<close>

definition widget_callback :: "env \<Rightarrow> error + env" where
  "widget_callback e =
     (let chosen_inds = cb_obj_active e;
          chosen_widget_groups = chosen_loop chosen_inds (group_list e) 0 []
      in case select_loop (data (source e)) chosen_widget_groups 0 [] of
           Inl err \<Rightarrow> Inl err
         | Inr inds \<Rightarrow>
             Inr (e\<lparr>to_select_inds := Some inds,
                    source := emit_change ((source e)\<lparr>selected_indices := inds\<rparr>)\<rparr>))"

text \<open>The selection found in the data source after a run, or the error of the run.\<close>

definition selection_after :: "env \<Rightarrow> error + nat list" where
  "selection_after e =
     (case widget_callback e of
        Inl err \<Rightarrow> Inl err
      | Inr e' \<Rightarrow> Inr (selected_indices (source e')))"

text \<open>
  The data of the specification's scenarios: the group list \<^verbatim>\<open>["A","B","C"]\<close>, the
  columns \<^verbatim>\<open>index = [0,1,2,3]\<close> and \<^verbatim>\<open>widget_group = ["A","B","A","C"]\<close>, with any
  active list, previous selection, record of notifications and previous value of
  \<^verbatim>\<open>to_select_inds\<close>.
\<close>

definition scenario :: "int list \<Rightarrow> nat list \<Rightarrow> nat list list \<Rightarrow> nat list option \<Rightarrow> env" where
  "scenario active prev emits glob =
     \<lparr>cb_obj_active = active,
      group_list = [''A'', ''B'', ''C''],
      source = \<lparr>data = [''index'' \<mapsto> [JNum 0, JNum 1, JNum 2, JNum 3],
                       ''widget_group'' \<mapsto> [JStr ''A'', JStr ''B'', JStr ''A'', JStr ''C'']],
                selected_indices = prev,
                change_emits = emits\<rparr>,
      to_select_inds = glob\<rparr>"

text \<open>
  A data source whose \<^verbatim>\<open>index\<close> column has three rows and whose \<^verbatim>\<open>widget_group\<close>
  column is given, with the group list \<^verbatim>\<open>["A","B"]\<close>: the columns may differ in length.
\<close>

definition short_env :: "int list \<Rightarrow> jsval list \<Rightarrow> env" where
  "short_env active wg =
     \<lparr>cb_obj_active = active,
      group_list = [''A'', ''B''],
      source = \<lparr>data = [''index'' \<mapsto> [JNum 10, JNum 11, JNum 12],
                       ''widget_group'' \<mapsto> wg],
                selected_indices = [],
                change_emits = []\<rparr>,
      to_select_inds = None\<rparr>"

declare chosen_loop.simps [simp del]
declare select_loop.simps [simp del]

subsection \<open>What the loops compute\<close>

text \<open>
  The first loop appends, in order, the labels at the positions that occur in
  \<^verbatim>\<open>chosen_inds\<close>; the second appends, in order, the row positions whose group is among
  the chosen ones.
\<close>

lemma chosen_loop_eq:
  "chosen_loop a g i acc =
     acc @ map (\<lambda>j. JStr (g ! j)) (filter (\<lambda>j. int j \<in> set a) [i..<length g])"
proof (induction a g i acc rule: chosen_loop.induct)
  case (1 a g i acc)
  show ?case
  proof (cases "i < length g")
    case True
    then have "[i..<length g] = i # [Suc i..<length g]"
      by (rule upt_conv_Cons)
    with True 1 show ?thesis
      by (subst chosen_loop.simps) (simp add: js_includes_def)
  next
    case False
    then show ?thesis
      by (subst chosen_loop.simps) simp
  qed
qed

lemma set_chosen_loop:
  "set (chosen_loop a g 0 []) = {JStr (g ! j) | j. j < length g \<and> int j \<in> set a}"
  by (auto simp: chosen_loop_eq)

lemma select_loop_eq:
  assumes "d ''index'' = Some idx" and "d ''widget_group'' = Some wg"
  shows "select_loop d ch i acc =
     Inr (acc @ filter (\<lambda>r. js_get wg r \<in> set ch) [i..<length idx])"
  using assms
proof (induction d ch i acc rule: select_loop.induct)
  case (1 d ch i acc)
  show ?case
  proof (cases "i < length idx")
    case True
    then have "[i..<length idx] = i # [Suc i..<length idx]"
      by (rule upt_conv_Cons)
    with True 1 show ?thesis
      by (subst select_loop.simps) (simp add: js_includes_def)
  next
    case False
    with 1 show ?thesis
      by (subst select_loop.simps) simp
  qed
qed

lemma select_loop_no_index:
  "d ''index'' = None \<Longrightarrow> select_loop d ch i acc = Inl TypeError"
  by (subst select_loop.simps) simp

lemma select_loop_no_widget_group:
  "d ''index'' = Some idx \<Longrightarrow> d ''widget_group'' = None \<Longrightarrow>
   select_loop d ch i acc = (if i < length idx then Inl TypeError else Inr acc)"
  by (subst select_loop.simps) simp

lemma select_loop_sorted:
  assumes "select_loop d ch 0 [] = Inr xs"
  shows "sorted_wrt (<) xs"
proof (cases "d ''index''")
  case None
  with assms show ?thesis by (simp add: select_loop_no_index)
next
  case (Some idx)
  show ?thesis
  proof (cases "d ''widget_group''")
    case None
    with Some assms show ?thesis
      by (simp add: select_loop_no_widget_group split: if_splits)
  next
    case (Some wg)
    with \<open>d ''index'' = Some idx\<close> assms
    have "xs = filter (\<lambda>r. js_get wg r \<in> set ch) [0..<length idx]"
      by (simp add: select_loop_eq)
    then show ?thesis
      by (simp add: sorted_wrt_filter)
  qed
qed

lemma widget_callback_eq:
  assumes "data (source e) ''index'' = Some idx"
    and "data (source e) ''widget_group'' = Some wg"
  shows "widget_callback e =
     Inr (e\<lparr>to_select_inds :=
              Some (filter (\<lambda>r. js_get wg r \<in> set (chosen_loop (cb_obj_active e) (group_list e) 0 []))
                     [0..<length idx]),
            source := (source e)\<lparr>
              selected_indices :=
                filter (\<lambda>r. js_get wg r \<in> set (chosen_loop (cb_obj_active e) (group_list e) 0 []))
                  [0..<length idx],
              change_emits := change_emits (source e) @
                [filter (\<lambda>r. js_get wg r \<in> set (chosen_loop (cb_obj_active e) (group_list e) 0 []))
                   [0..<length idx]]\<rparr>\<rparr>)"
  using assms by (simp add: widget_callback_def Let_def select_loop_eq emit_change_def)

lemma widget_callback_Inr:
  assumes "widget_callback e = Inr e'"
  shows "\<exists>xs. select_loop (data (source e)) (chosen_loop (cb_obj_active e) (group_list e) 0 []) 0 [] = Inr xs
     \<and> e' = e\<lparr>to_select_inds := Some xs,
              source := (source e)\<lparr>selected_indices := xs,
                                   change_emits := change_emits (source e) @ [xs]\<rparr>\<rparr>"
  using assms by (auto simp: widget_callback_def Let_def emit_change_def split: sum.splits)

lemma chosen_loop_cong:
  "set a = set b \<Longrightarrow> chosen_loop a g 0 [] = chosen_loop b g 0 []"
  by (simp add: chosen_loop_eq)

lemma selection_after_cong:
  assumes "chosen_loop a (group_list e) 0 [] = chosen_loop b (group_list e) 0 []"
  shows "selection_after (e\<lparr>cb_obj_active := a\<rparr>) = selection_after (e\<lparr>cb_obj_active := b\<rparr>)"
  using assms by (simp add: selection_after_def widget_callback_def Let_def emit_change_def split: sum.splits)

lemma js_get_in_chosen_iff:
  "js_get wg r \<in> set (chosen_loop a g 0 []) \<longleftrightarrow>
     r < length wg \<and>
     (\<exists>k\<in>set a. 0 \<le> k \<and> k < int (length g) \<and> wg ! r = JStr (g ! nat k))"
proof
  assume "js_get wg r \<in> set (chosen_loop a g 0 [])"
  then obtain j where j: "js_get wg r = JStr (g ! j)" "j < length g" "int j \<in> set a"
    by (auto simp: set_chosen_loop)
  from j(1) have "r < length wg" "wg ! r = JStr (g ! j)"
    by (auto simp: js_get_def split: if_splits)
  with j(2,3) show "r < length wg \<and>
      (\<exists>k\<in>set a. 0 \<le> k \<and> k < int (length g) \<and> wg ! r = JStr (g ! nat k))"
    by (intro conjI bexI[of _ "int j"]) auto
next
  assume "r < length wg \<and>
      (\<exists>k\<in>set a. 0 \<le> k \<and> k < int (length g) \<and> wg ! r = JStr (g ! nat k))"
  then obtain k where k: "r < length wg" "k \<in> set a" "0 \<le> k" "k < int (length g)"
      "wg ! r = JStr (g ! nat k)"
    by blast
  then have "nat k < length g" "int (nat k) \<in> set a" by auto
  with k(1,5) show "js_get wg r \<in> set (chosen_loop a g 0 [])"
    unfolding set_chosen_loop js_get_def by auto
qed

lemma selection_after_eq:
  assumes "data (source e) ''index'' = Some idx"
    and "data (source e) ''widget_group'' = Some wg"
  shows "selection_after e =
     Inr (filter (\<lambda>r. js_get wg r \<in> set (chosen_loop (cb_obj_active e) (group_list e) 0 []))
            [0..<length idx])"
  by (simp add: selection_after_def widget_callback_eq [OF assms])

lemma selection_after_active_cong:
  assumes "chosen_loop a (group_list e) 0 [] = chosen_loop (cb_obj_active e) (group_list e) 0 []"
  shows "selection_after (e\<lparr>cb_obj_active := a\<rparr>) = selection_after e"
  using assms by (simp add: selection_after_def widget_callback_def Let_def emit_change_def split: sum.splits)

lemma selection_after_prev:
  "selection_after (e\<lparr>source := (source e)\<lparr>selected_indices := prev\<rparr>\<rparr>) = selection_after e"
  by (simp add: selection_after_def widget_callback_def Let_def emit_change_def split: sum.splits)

lemma js_get_take:
  "r < n \<Longrightarrow> js_get (take n xs) r = js_get xs r"
  by (simp add: js_get_def)

lemma chosen_loop_in_range:
  "chosen_loop (filter (\<lambda>k. k < int (length g)) a) g 0 [] = chosen_loop a g 0 []"
proof -
  have "filter (\<lambda>j. int j \<in> set (filter (\<lambda>k. k < int (length g)) a)) [0..<length g] =
      filter (\<lambda>j. int j \<in> set a) [0..<length g]"
    by (rule filter_cong) auto
  then show ?thesis
    by (simp only: chosen_loop_eq)
qed

lemma chosen_loop_nonneg:
  "chosen_loop (filter (\<lambda>k. 0 \<le> k) a) g 0 [] = chosen_loop a g 0 []"
proof -
  have "filter (\<lambda>j. int j \<in> set (filter (\<lambda>k. 0 \<le> k) a)) [0..<length g] =
      filter (\<lambda>j. int j \<in> set a) [0..<length g]"
    by (rule filter_cong) auto
  then show ?thesis
    by (simp only: chosen_loop_eq)
qed

lemma chosen_loop_Nil: "chosen_loop [] g 0 [] = []"
  by (simp add: chosen_loop_eq)

lemma computed_selection_eq:
  "filter (\<lambda>r. js_get wg r \<in> set (chosen_loop a g 0 [])) [0..<n] =
   filter (\<lambda>r. r < length wg \<and>
        (\<exists>k\<in>set a. 0 \<le> k \<and> k < int (length g) \<and> wg ! r = JStr (g ! nat k))) [0..<n]"
  by (rule filter_cong) (simp_all only: js_get_in_chosen_iff)

subsection \<open>The claims\<close>

text \<open>
  C1. On a data source whose columns \<^verbatim>\<open>index\<close> and \<^verbatim>\<open>widget_group\<close> have the same
  length, the callback returns, and afterwards a position \<open>r\<close> is in
  \<^verbatim>\<open>source.selected.indices\<close> if and only if \<open>r\<close> is a row position and
  \<^verbatim>\<open>widget_group[r]\<close> equals \<^verbatim>\<open>group_list[k]\<close> for some \<open>k\<close> in \<^verbatim>\<open>cb_obj.active\<close>
  with \<open>0 \<le> k < length group_list\<close>.
\<close>

theorem selected_iff_active_group:
  assumes "data (source e) ''index'' = Some idx"
    and "data (source e) ''widget_group'' = Some wg"
    and "length idx = length wg"
  shows "\<exists>e'. widget_callback e = Inr e' \<and>
     (\<forall>r. r \<in> set (selected_indices (source e')) \<longleftrightarrow>
        r < length wg \<and>
        (\<exists>k\<in>set (cb_obj_active e). 0 \<le> k \<and> k < int (length (group_list e)) \<and>
           wg ! r = JStr (group_list e ! nat k)))"
proof -
  let ?sel = "filter (\<lambda>r. js_get wg r \<in> set (chosen_loop (cb_obj_active e) (group_list e) 0 []))
      [0..<length idx]"
  have "r \<in> set ?sel \<longleftrightarrow> r < length wg \<and>
        (\<exists>k\<in>set (cb_obj_active e). 0 \<le> k \<and> k < int (length (group_list e)) \<and>
           wg ! r = JStr (group_list e ! nat k))" for r
    using assms(3) by (auto simp: js_get_in_chosen_iff)
  then show ?thesis
    by (simp add: widget_callback_eq [OF assms(1,2)])
qed

theorem selected_iff_active_group_witness:
  "data (source (scenario [0, 2] [7] [] None)) ''index'' = Some [JNum 0, JNum 1, JNum 2, JNum 3] \<and>
   data (source (scenario [0, 2] [7] [] None)) ''widget_group'' =
     Some [JStr ''A'', JStr ''B'', JStr ''A'', JStr ''C''] \<and>
   (\<exists>e'. widget_callback (scenario [0, 2] [7] [] None) = Inr e' \<and>
      3 \<in> set (selected_indices (source e')) \<and>
      1 \<notin> set (selected_indices (source e')) \<and>
      7 \<notin> set (selected_indices (source e')))"
proof -
  let ?e = "scenario [0, 2] [7] [] None"
  let ?idx = "[JNum 0, JNum 1, JNum 2, JNum 3]"
  let ?wg = "[JStr ''A'', JStr ''B'', JStr ''A'', JStr ''C'']"
  have h1: "data (source ?e) ''index'' = Some ?idx"
    and h2: "data (source ?e) ''widget_group'' = Some ?wg"
    and h3: "length ?idx = length ?wg"
    by (simp_all add: scenario_def)
  from selected_iff_active_group [OF h1 h2 h3]
  obtain e' where e': "widget_callback ?e = Inr e'"
    and iff: "\<And>r. r \<in> set (selected_indices (source e')) \<longleftrightarrow>
        r < length ?wg \<and>
        (\<exists>k\<in>set (cb_obj_active ?e). 0 \<le> k \<and> k < int (length (group_list ?e)) \<and>
           ?wg ! r = JStr (group_list ?e ! nat k))"
    by blast
  have "3 \<in> set (selected_indices (source e'))"
    by (simp add: iff scenario_def)
  moreover have "1 \<notin> set (selected_indices (source e'))"
    by (simp add: iff scenario_def)
  moreover have "7 \<notin> set (selected_indices (source e'))"
    by (simp add: iff scenario_def)
  ultimately show ?thesis
    using h1 h2 e' by blast
qed

text \<open>
  C2. The sequence a run writes to \<^verbatim>\<open>source.selected.indices\<close> is strictly ascending,
  so no position occurs twice in it, and it replaces the previous selection: whatever
  the selection \<open>prev\<close> before the run, the selection after it is this sequence.
\<close>

theorem selection_strictly_ascending:
  assumes "widget_callback e = Inr e'"
  shows "sorted_wrt (<) (selected_indices (source e')) \<and>
     distinct (selected_indices (source e')) \<and>
     selection_after (e\<lparr>source := (source e)\<lparr>selected_indices := prev\<rparr>\<rparr>) =
       Inr (selected_indices (source e'))"
proof -
  from widget_callback_Inr [OF assms] obtain xs
    where xs: "select_loop (data (source e))
        (chosen_loop (cb_obj_active e) (group_list e) 0 []) 0 [] = Inr xs"
      and sel: "selected_indices (source e') = xs"
    by auto
  from xs have asc: "sorted_wrt (<) xs"
    by (rule select_loop_sorted)
  then have "distinct xs"
    by (simp add: strict_sorted_iff)
  moreover have "selection_after e = Inr xs"
    using assms sel by (simp add: selection_after_def)
  ultimately show ?thesis
    using asc sel by (simp add: selection_after_prev)
qed

theorem selection_strictly_ascending_witness:
  "\<exists>e'. widget_callback (scenario [2, 0] [3, 3, 1] [] None) = Inr e' \<and>
     selected_indices (source e') = [0, 2, 3] \<and>
     sorted_wrt (<) (selected_indices (source e')) \<and>
     distinct (selected_indices (source e')) \<and>
     selection_after (scenario [2, 0] [9, 9] [] None) = Inr (selected_indices (source e'))"
proof -
  let ?e = "scenario [2, 0] [3, 3, 1] [] None"
  let ?e' = "?e\<lparr>to_select_inds := Some [0, 2, 3],
      source := (source ?e)\<lparr>selected_indices := [0, 2, 3], change_emits := [0, 2, 3] # []\<rparr>\<rparr>"
  have run: "widget_callback ?e = Inr ?e'"
    by (simp add: widget_callback_def Let_def scenario_def emit_change_def
        chosen_loop.simps select_loop.simps js_includes_def js_get_def)
  have "(scenario [2, 0] [3, 3, 1] [] None)\<lparr>source := (source ?e)\<lparr>selected_indices := [9, 9]\<rparr>\<rparr>
      = scenario [2, 0] [9, 9] [] None"
    by (simp add: scenario_def)
  with selection_strictly_ascending [OF run, of "[9, 9]"] run show ?thesis
    by simp
qed

text \<open>
  C3. The selection depends only on the set of values in \<^verbatim>\<open>cb_obj.active\<close>: two
  active lists with the same elements give the same result, in particular a permutation
  of the list and the list without its duplicates.
\<close>

theorem selection_depends_on_active_set:
  "(set a = set b \<longrightarrow>
      selection_after (e\<lparr>cb_obj_active := a\<rparr>) = selection_after (e\<lparr>cb_obj_active := b\<rparr>)) \<and>
   (mset a = mset b \<longrightarrow>
      selection_after (e\<lparr>cb_obj_active := a\<rparr>) = selection_after (e\<lparr>cb_obj_active := b\<rparr>)) \<and>
   selection_after (e\<lparr>cb_obj_active := remdups a\<rparr>) = selection_after (e\<lparr>cb_obj_active := a\<rparr>)"
proof (intro conjI impI)
  assume "set a = set b"
  then show "selection_after (e\<lparr>cb_obj_active := a\<rparr>) = selection_after (e\<lparr>cb_obj_active := b\<rparr>)"
    by (intro selection_after_cong chosen_loop_cong)
next
  assume "mset a = mset b"
  then have "set a = set b"
    by (rule mset_eq_setD)
  then show "selection_after (e\<lparr>cb_obj_active := a\<rparr>) = selection_after (e\<lparr>cb_obj_active := b\<rparr>)"
    by (intro selection_after_cong chosen_loop_cong)
next
  have "set (remdups a) = set a" by simp
  then show "selection_after (e\<lparr>cb_obj_active := remdups a\<rparr>) = selection_after (e\<lparr>cb_obj_active := a\<rparr>)"
    by (intro selection_after_cong chosen_loop_cong)
qed

theorem selection_depends_on_active_set_witness:
  "set [2, 0, 0, 2::int] = set [0, 2] \<and> mset [2, 0::int] = mset [0, 2] \<and>
   selection_after (scenario [2, 0, 0, 2] [] [] None) = selection_after (scenario [0, 2] [] [] None) \<and>
   selection_after (scenario [2, 0] [] [] None) = selection_after (scenario [0, 2] [] [] None) \<and>
   selection_after (scenario [1] [] [] None) = selection_after (scenario [1, 1] [] [] None)"
proof -
  let ?e = "scenario [] [] [] None"
  note dep = selection_depends_on_active_set
  have s: "set [2, 0, 0, 2::int] = set [0, 2]" by auto
  have m: "mset [2, 0::int] = mset [0, 2]" by simp
  have e: "?e\<lparr>cb_obj_active := a\<rparr> = scenario a [] [] None" for a
    by (simp add: scenario_def)
  have r: "remdups [1, 1::int] = [1]" by simp
  from dep [of "[2, 0, 0, 2]" "[0, 2]" ?e, THEN conjunct1, THEN mp, OF s]
  have c1: "selection_after (scenario [2, 0, 0, 2] [] [] None) = selection_after (scenario [0, 2] [] [] None)"
    by (simp only: e)
  from dep [of "[2, 0]" "[0, 2]" ?e, THEN conjunct2, THEN conjunct1, THEN mp, OF m]
  have c2: "selection_after (scenario [2, 0] [] [] None) = selection_after (scenario [0, 2] [] [] None)"
    by (simp only: e)
  from dep [of "[1, 1]" "[1, 1]" ?e, THEN conjunct2, THEN conjunct2]
  have c3: "selection_after (scenario [1] [] [] None) = selection_after (scenario [1, 1] [] [] None)"
    by (simp only: e r)
  from s m c1 c2 c3 show ?thesis
    by (intro conjI)
qed

text \<open>
  C4. On a data source with both columns the callback returns without an error whatever
  the active list holds, and the entries at or beyond the length of \<^verbatim>\<open>group_list\<close>
  contribute nothing: the selection is the one of the active list restricted to the
  entries below that length.
\<close>

theorem out_of_range_active_ignored:
  assumes "data (source e) ''index'' = Some idx"
    and "data (source e) ''widget_group'' = Some wg"
  shows "(\<exists>e'. widget_callback e = Inr e') \<and>
     selection_after e =
       selection_after
         (e\<lparr>cb_obj_active := filter (\<lambda>k. k < int (length (group_list e))) (cb_obj_active e)\<rparr>)"
proof
  show "\<exists>e'. widget_callback e = Inr e'"
    by (simp add: widget_callback_eq [OF assms])
  show "selection_after e =
       selection_after
         (e\<lparr>cb_obj_active := filter (\<lambda>k. k < int (length (group_list e))) (cb_obj_active e)\<rparr>)"
    by (rule sym, rule selection_after_active_cong, rule chosen_loop_in_range)
qed

theorem out_of_range_active_ignored_witness:
  "data (source (scenario [5, 0, 3] [1] [] None)) ''index'' = Some [JNum 0, JNum 1, JNum 2, JNum 3] \<and>
   data (source (scenario [5, 0, 3] [1] [] None)) ''widget_group'' =
     Some [JStr ''A'', JStr ''B'', JStr ''A'', JStr ''C''] \<and>
   (\<exists>e'. widget_callback (scenario [5, 0, 3] [1] [] None) = Inr e') \<and>
   selection_after (scenario [5, 0, 3] [1] [] None) = selection_after (scenario [0] [1] [] None)"
proof -
  let ?e = "scenario [5, 0, 3] [1] [] None"
  have h1: "data (source ?e) ''index'' = Some [JNum 0, JNum 1, JNum 2, JNum 3]"
    and h2: "data (source ?e) ''widget_group'' = Some [JStr ''A'', JStr ''B'', JStr ''A'', JStr ''C'']"
    by (simp_all add: scenario_def)
  have "?e\<lparr>cb_obj_active := filter (\<lambda>k. k < int (length (group_list ?e))) (cb_obj_active ?e)\<rparr>
      = scenario [0] [1] [] None"
    by (simp add: scenario_def)
  with out_of_range_active_ignored [OF h1 h2] h1 h2 show ?thesis
    by simp
qed

text \<open>
  C5. With an empty active list, on any group list and any data source with both
  columns, the callback returns, the selection is empty afterwards, whatever it was
  before, and one notification is emitted, for the empty selection.  Nothing else
  changes but the script's variable \<^verbatim>\<open>to_select_inds\<close>.
\<close>

theorem empty_active_clears_selection:
  assumes "cb_obj_active e = []"
    and "data (source e) ''index'' = Some idx"
    and "data (source e) ''widget_group'' = Some wg"
  shows "widget_callback e =
     Inr (e\<lparr>to_select_inds := Some [],
            source := (source e)\<lparr>selected_indices := [],
                                 change_emits := change_emits (source e) @ [Nil]\<rparr>\<rparr>)"
  by (simp add: widget_callback_eq [OF assms(2,3)] assms(1) chosen_loop_Nil)

theorem empty_active_clears_selection_witness:
  "cb_obj_active (scenario [] [0, 2] ([0, 2] # []) (Some [0, 2])) = [] \<and>
   widget_callback (scenario [] [0, 2] ([0, 2] # []) (Some [0, 2])) =
     Inr (scenario [] [] ([0, 2] # [] # []) (Some []))"
proof -
  let ?e = "scenario [] [0, 2] ([0, 2] # []) (Some [0, 2])"
  have h0: "cb_obj_active ?e = []"
    and h1: "data (source ?e) ''index'' = Some [JNum 0, JNum 1, JNum 2, JNum 3]"
    and h2: "data (source ?e) ''widget_group'' = Some [JStr ''A'', JStr ''B'', JStr ''A'', JStr ''C'']"
    by (simp_all add: scenario_def)
  from empty_active_clears_selection [OF h0 h1 h2] h0 show ?thesis
    by (simp add: scenario_def)
qed

text \<open>
  C6. A run on a data source with both columns replaces the selection by the computed
  one (the row positions, in ascending order, whose group is active) and then emits
  exactly one change notification: the record of notifications grows by one entry,
  and that entry is the computed selection, so the listeners find the new selection in
  the source.  No comparison with the previous selection is made: the entry is appended
  also when the computed selection equals the previous one.
\<close>

theorem one_notification_after_replacement:
  assumes "data (source e) ''index'' = Some idx"
    and "data (source e) ''widget_group'' = Some wg"
  shows "\<exists>e'. widget_callback e = Inr e' \<and>
     selected_indices (source e') =
       filter (\<lambda>r. r < length wg \<and>
            (\<exists>k\<in>set (cb_obj_active e). 0 \<le> k \<and> k < int (length (group_list e)) \<and>
               wg ! r = JStr (group_list e ! nat k))) [0..<length idx] \<and>
     change_emits (source e') =
       change_emits (source e) @
         [filter (\<lambda>r. r < length wg \<and>
            (\<exists>k\<in>set (cb_obj_active e). 0 \<le> k \<and> k < int (length (group_list e)) \<and>
               wg ! r = JStr (group_list e ! nat k))) [0..<length idx]]"
  by (simp add: widget_callback_eq [OF assms] computed_selection_eq)

theorem one_notification_after_replacement_witness:
  "data (source (scenario [1] [0, 2] ([0, 2] # []) None)) ''index'' =
     Some [JNum 0, JNum 1, JNum 2, JNum 3] \<and>
   data (source (scenario [1] [0, 2] ([0, 2] # []) None)) ''widget_group'' =
     Some [JStr ''A'', JStr ''B'', JStr ''A'', JStr ''C''] \<and>
   (\<exists>e'. widget_callback (scenario [1] [0, 2] ([0, 2] # []) None) = Inr e' \<and>
      selected_indices (source e') = [1] \<and>
      change_emits (source e') = [0, 2] # [1] # []) \<and>
   (\<exists>e'. widget_callback (scenario [0] [0, 2] ([0, 2] # []) None) = Inr e' \<and>
      selected_indices (source e') = [0, 2] \<and>
      change_emits (source e') = [0, 2] # [0, 2] # [])"
proof -
  let ?idx = "[JNum 0, JNum 1, JNum 2, JNum 3]"
  let ?wg = "[JStr ''A'', JStr ''B'', JStr ''A'', JStr ''C'']"
  let ?d = "scenario [1] [0, 2] ([0, 2] # []) None"
  let ?s = "scenario [0] [0, 2] ([0, 2] # []) None"
  have rows: "[0..<length ?idx] = [0, 1, 2, 3]"
    by (simp add: upt_rec)
  have d1: "data (source ?d) ''index'' = Some ?idx"
    and d2: "data (source ?d) ''widget_group'' = Some ?wg"
    and s1: "data (source ?s) ''index'' = Some ?idx"
    and s2: "data (source ?s) ''widget_group'' = Some ?wg"
    by (simp_all add: scenario_def)
  from one_notification_after_replacement [OF d1 d2]
  have differs: "\<exists>e'. widget_callback ?d = Inr e' \<and>
      selected_indices (source e') = [1] \<and>
      change_emits (source e') = [0, 2] # [1] # []"
    unfolding rows by (simp add: scenario_def)
  from one_notification_after_replacement [OF s1 s2]
  have same: "\<exists>e'. widget_callback ?s = Inr e' \<and>
      selected_indices (source e') = [0, 2] \<and>
      change_emits (source e') = [0, 2] # [0, 2] # []"
    unfolding rows by (simp add: scenario_def)
  from d1 d2 differs same show ?thesis
    by (intro conjI)
qed

text \<open>
  C7. A run leaves \<^verbatim>\<open>cb_obj.active\<close>, \<^verbatim>\<open>group_list\<close> and every column of
  \<^verbatim>\<open>source.data\<close>, so \<^verbatim>\<open>index\<close> and \<^verbatim>\<open>widget_group\<close>, as they were.  (Of the state
  modelled here the run changes the selection, the record of notifications and the
  script's own variable \<^verbatim>\<open>to_select_inds\<close>.)
\<close>

theorem only_selection_mutated:
  assumes "widget_callback e = Inr e'"
  shows "cb_obj_active e' = cb_obj_active e \<and> group_list e' = group_list e \<and>
     data (source e') = data (source e)"
  using widget_callback_Inr [OF assms] by auto

theorem only_selection_mutated_witness:
  "\<exists>e'. widget_callback (scenario [1] [0, 2] [] None) = Inr e' \<and>
     selected_indices (source e') = [1] \<and>
     cb_obj_active e' = [1] \<and> group_list e' = [''A'', ''B'', ''C''] \<and>
     data (source e') = data (source (scenario [1] [0, 2] [] None))"
proof -
  let ?e = "scenario [1] [0, 2] [] None"
  let ?e' = "?e\<lparr>to_select_inds := Some [1],
      source := (source ?e)\<lparr>selected_indices := [1], change_emits := [1] # []\<rparr>\<rparr>"
  have run: "widget_callback ?e = Inr ?e'"
    by (simp add: widget_callback_def Let_def scenario_def emit_change_def
        chosen_loop.simps select_loop.simps js_includes_def js_get_def)
  from only_selection_mutated [OF run] run show ?thesis
    by (simp add: scenario_def)
qed

text \<open>
  C8. The scenarios of the specification: on the group list \<^verbatim>\<open>["A","B","C"]\<close> and the
  columns \<^verbatim>\<open>index = [0,1,2,3]\<close>, \<^verbatim>\<open>widget_group = ["A","B","A","C"]\<close>, the active list
  \<^verbatim>\<open>[0]\<close> selects \<^verbatim>\<open>[0,2]\<close>, \<^verbatim>\<open>[0,2]\<close> selects \<^verbatim>\<open>[0,2,3]\<close>, \<^verbatim>\<open>[1,1]\<close> selects
  \<^verbatim>\<open>[1]\<close> and \<^verbatim>\<open>[5]\<close> selects nothing, whatever was selected before.
\<close>

theorem scenarios:
  "selection_after (scenario [0] prev emits glob) = Inr [0, 2] \<and>
   selection_after (scenario [0, 2] prev emits glob) = Inr [0, 2, 3] \<and>
   selection_after (scenario [1, 1] prev emits glob) = Inr [1] \<and>
   selection_after (scenario [5] prev emits glob) = Inr []"
  by (simp add: selection_after_def widget_callback_def Let_def scenario_def emit_change_def
      chosen_loop.simps select_loop.simps js_includes_def js_get_def)

text \<open>
  C9. When \<^verbatim>\<open>widget_group\<close> is shorter than \<^verbatim>\<open>index\<close> the callback still returns;
  the loop runs over every position of \<^verbatim>\<open>index\<close>, and a position is selected if and
  only if it lies within \<^verbatim>\<open>widget_group\<close> and its group is active, so no position at or
  beyond the length of \<^verbatim>\<open>widget_group\<close> is selected: the read there gives
  \<^verbatim>\<open>undefined\<close>, which is no group label.  The cells of \<^verbatim>\<open>widget_group\<close> beyond the
  length of \<^verbatim>\<open>index\<close> are never read: changing or dropping them changes nothing.
\<close>

theorem short_widget_group_column:
  assumes "data (source e) ''index'' = Some idx"
    and "data (source e) ''widget_group'' = Some wg"
  shows "(length wg < length idx \<longrightarrow>
       (\<exists>e'. widget_callback e = Inr e' \<and>
          (\<forall>r. r \<in> set (selected_indices (source e')) \<longleftrightarrow>
             r < length wg \<and>
             (\<exists>k\<in>set (cb_obj_active e). 0 \<le> k \<and> k < int (length (group_list e)) \<and>
                wg ! r = JStr (group_list e ! nat k))))) \<and>
     (\<forall>wg'. take (length idx) wg' = take (length idx) wg \<longrightarrow>
        selection_after
          (e\<lparr>source := (source e)\<lparr>data := (data (source e))(''widget_group'' \<mapsto> wg')\<rparr>\<rparr>) =
        selection_after e)"
proof (intro conjI impI allI)
  assume short: "length wg < length idx"
  let ?sel = "filter (\<lambda>r. js_get wg r \<in> set (chosen_loop (cb_obj_active e) (group_list e) 0 []))
      [0..<length idx]"
  have "r \<in> set ?sel \<longleftrightarrow> r < length wg \<and>
        (\<exists>k\<in>set (cb_obj_active e). 0 \<le> k \<and> k < int (length (group_list e)) \<and>
           wg ! r = JStr (group_list e ! nat k))" for r
    using short by (auto simp: js_get_in_chosen_iff)
  then show "\<exists>e'. widget_callback e = Inr e' \<and>
          (\<forall>r. r \<in> set (selected_indices (source e')) \<longleftrightarrow>
             r < length wg \<and>
             (\<exists>k\<in>set (cb_obj_active e). 0 \<le> k \<and> k < int (length (group_list e)) \<and>
                wg ! r = JStr (group_list e ! nat k)))"
    by (simp add: widget_callback_eq [OF assms])
next
  fix wg'
  assume same: "take (length idx) wg' = take (length idx) wg"
  let ?e = "e\<lparr>source := (source e)\<lparr>data := (data (source e))(''widget_group'' \<mapsto> wg')\<rparr>\<rparr>"
  let ?ch = "chosen_loop (cb_obj_active e) (group_list e) 0 []"
  have i: "data (source ?e) ''index'' = Some idx"
    using assms(1) by simp
  have w: "data (source ?e) ''widget_group'' = Some wg'"
    by simp
  have "js_get wg' r = js_get wg r" if "r < length idx" for r
    using js_get_take [OF that, of wg'] js_get_take [OF that, of wg] same by simp
  then have "filter (\<lambda>r. js_get wg' r \<in> set ?ch) [0..<length idx] =
      filter (\<lambda>r. js_get wg r \<in> set ?ch) [0..<length idx]"
    by (intro filter_cong) auto
  then show "selection_after ?e = selection_after e"
    by (simp add: selection_after_eq [OF i w] selection_after_eq [OF assms])
qed

theorem short_widget_group_column_witness:
  "data (source (short_env [1, 0] [JStr ''B''])) ''index'' = Some [JNum 10, JNum 11, JNum 12] \<and>
   data (source (short_env [1, 0] [JStr ''B''])) ''widget_group'' = Some [JStr ''B''] \<and>
   length [JStr ''B''] < length [JNum 10, JNum 11, JNum 12] \<and>
   (\<exists>e'. widget_callback (short_env [1, 0] [JStr ''B'']) = Inr e' \<and>
      0 \<in> set (selected_indices (source e')) \<and>
      1 \<notin> set (selected_indices (source e')) \<and>
      2 \<notin> set (selected_indices (source e'))) \<and>
   selection_after (short_env [1, 0] [JStr ''B'', JStr ''A'', JStr ''C'', JStr ''A'', JStr ''B'']) =
     selection_after (short_env [1, 0] [JStr ''B'', JStr ''A'', JStr ''C''])"
proof -
  let ?e = "short_env [1, 0] [JStr ''B'']"
  let ?idx = "[JNum 10, JNum 11, JNum 12]"
  let ?wg = "[JStr ''B'']"
  have h1: "data (source ?e) ''index'' = Some ?idx"
    and h2: "data (source ?e) ''widget_group'' = Some ?wg"
    by (simp_all add: short_env_def)
  have h3: "length ?wg < length ?idx"
    by simp
  from short_widget_group_column [OF h1 h2, THEN conjunct1, THEN mp, OF h3]
  obtain e' where run: "widget_callback ?e = Inr e'"
    and iff: "\<And>r. r \<in> set (selected_indices (source e')) \<longleftrightarrow>
        r < length ?wg \<and>
        (\<exists>k\<in>set (cb_obj_active ?e). 0 \<le> k \<and> k < int (length (group_list ?e)) \<and>
           ?wg ! r = JStr (group_list ?e ! nat k))"
    by blast
  have s0: "0 \<in> set (selected_indices (source e'))"
    by (simp add: iff short_env_def)
  have s1: "1 \<notin> set (selected_indices (source e'))"
    by (simp add: iff short_env_def)
  have s2: "2 \<notin> set (selected_indices (source e'))"
    by (simp add: iff short_env_def)
  let ?l = "short_env [1, 0] [JStr ''B'', JStr ''A'', JStr ''C'']"
  let ?wl = "[JStr ''B'', JStr ''A'', JStr ''C'']"
  let ?wl' = "[JStr ''B'', JStr ''A'', JStr ''C'', JStr ''A'', JStr ''B'']"
  have l1: "data (source ?l) ''index'' = Some ?idx"
    and l2: "data (source ?l) ''widget_group'' = Some ?wl"
    by (simp_all add: short_env_def)
  have l3: "take (length ?idx) ?wl' = take (length ?idx) ?wl"
    by simp
  have l4: "?l\<lparr>source := (source ?l)\<lparr>data := (data (source ?l))(''widget_group'' \<mapsto> ?wl')\<rparr>\<rparr> =
      short_env [1, 0] ?wl'"
    by (simp add: short_env_def)
  from short_widget_group_column [OF l1 l2, THEN conjunct2, THEN spec, THEN mp, OF l3]
  have long: "selection_after (short_env [1, 0] ?wl') = selection_after ?l"
    by (simp only: l4)
  from h1 h2 h3 run s0 s1 s2 long show ?thesis
    by blast
qed

text \<open>
  C10. Negative entries of \<^verbatim>\<open>cb_obj.active\<close> are ignored: the selection is the one of
  the active list without them, since the first loop asks \<^verbatim>\<open>includes\<close> only for the
  positions \<open>0 \<le> i < length group_list\<close>.
\<close>

theorem negative_active_ignored:
  "selection_after (e\<lparr>cb_obj_active := filter (\<lambda>k. 0 \<le> k) (cb_obj_active e)\<rparr>) = selection_after e"
  by (rule selection_after_active_cong, rule chosen_loop_nonneg)

theorem negative_active_ignored_witness:
  "selection_after (scenario [0, 2] [] [] None) = selection_after (scenario [-1, 0, -3, 2] [] [] None)"
  using negative_active_ignored [of "scenario [-1, 0, -3, 2] [] [] None"]
  by (simp add: scenario_def)

end
